theory Spec2Isabelle
  imports Complex_Main
begin

section \<open>Gate-argument sequences of the advanced tutorial\<close>

text \<open>
  The advanced tutorial builds the seven gate-argument lists by hand. The script fixes
  \<open>modes = 216\<close> and \<open>delay_0, delay_1, delay_2 = 1, 6, 36\<close>; here the number of modes and
  the three delays are parameters, and the randomly drawn lists are arguments. Delays are
  travel times in time bins, hence natural numbers. Python's \<open>0\<close> and \<open>0.0\<close> are the same
  list entry for every comparison, so both are the real number zero.
\<close>

definition squeezing_list :: "real \<Rightarrow> nat \<Rightarrow> real list" where
  \<comment> \<open>\<open>r = [r0] * modes\<close>\<close>
  "squeezing_list r0 modes = replicate modes r0"

definition fill_loop :: "nat \<Rightarrow> real list \<Rightarrow> real list" where
  \<comment> \<open>\<open>alpha[:delay] = [0.0] * delay\<close>: the slice \<open>alpha[:delay]\<close> (all of \<open>alpha\<close> when it
      is shorter than \<open>delay\<close>) is replaced by \<open>delay\<close> zeros.\<close>
  "fill_loop delay alpha = replicate delay 0 @ drop delay alpha"

definition await_first_mode :: "nat \<Rightarrow> real list \<Rightarrow> real list" where
  \<comment> \<open>\<open>xs = [0] * k + xs\<close>\<close>
  "await_first_mode k xs = replicate k 0 @ xs"

definition empty_loop :: "nat \<Rightarrow> real list \<Rightarrow> real list" where
  \<comment> \<open>\<open>xs += [0] * k\<close>\<close>
  "empty_loop k xs = xs @ replicate k 0"

text \<open>The final value of each of the seven lists, after the fill, delay and drain cells.\<close>

definition r_padded :: "nat \<Rightarrow> nat \<Rightarrow> nat \<Rightarrow> real list \<Rightarrow> real list" where
  "r_padded delay_0 delay_1 delay_2 r = empty_loop (delay_0 + delay_1 + delay_2) r"

definition phi_0_padded :: "nat \<Rightarrow> nat \<Rightarrow> nat \<Rightarrow> real list \<Rightarrow> real list" where
  "phi_0_padded delay_0 delay_1 delay_2 phi_0 = empty_loop (delay_0 + delay_1 + delay_2) phi_0"

definition alpha_0_padded :: "nat \<Rightarrow> nat \<Rightarrow> nat \<Rightarrow> real list \<Rightarrow> real list" where
  "alpha_0_padded delay_0 delay_1 delay_2 alpha_0 =
     empty_loop (delay_0 + delay_1 + delay_2) (fill_loop delay_0 alpha_0)"

definition phi_1_padded :: "nat \<Rightarrow> nat \<Rightarrow> nat \<Rightarrow> real list \<Rightarrow> real list" where
  "phi_1_padded delay_0 delay_1 delay_2 phi_1 =
     empty_loop (delay_1 + delay_2) (await_first_mode delay_0 phi_1)"

definition alpha_1_padded :: "nat \<Rightarrow> nat \<Rightarrow> nat \<Rightarrow> real list \<Rightarrow> real list" where
  "alpha_1_padded delay_0 delay_1 delay_2 alpha_1 =
     empty_loop (delay_1 + delay_2) (await_first_mode delay_0 (fill_loop delay_1 alpha_1))"

definition phi_2_padded :: "nat \<Rightarrow> nat \<Rightarrow> nat \<Rightarrow> real list \<Rightarrow> real list" where
  "phi_2_padded delay_0 delay_1 delay_2 phi_2 =
     empty_loop delay_2 (await_first_mode (delay_0 + delay_1) phi_2)"

definition alpha_2_padded :: "nat \<Rightarrow> nat \<Rightarrow> nat \<Rightarrow> real list \<Rightarrow> real list" where
  "alpha_2_padded delay_0 delay_1 delay_2 alpha_2 =
     empty_loop delay_2 (await_first_mode (delay_0 + delay_1) (fill_loop delay_2 alpha_2))"

definition gate_args_list ::
  "nat \<Rightarrow> nat \<Rightarrow> nat \<Rightarrow> real list \<Rightarrow> real list \<Rightarrow> real list \<Rightarrow> real list \<Rightarrow> real list
     \<Rightarrow> real list \<Rightarrow> real list \<Rightarrow> real list list" where
  \<comment> \<open>\<open>gate_args_list = [r, phi_0, alpha_0, phi_1, alpha_1, phi_2, alpha_2]\<close>\<close>
  "gate_args_list delay_0 delay_1 delay_2 r phi_0 alpha_0 phi_1 alpha_1 phi_2 alpha_2 =
     [r_padded delay_0 delay_1 delay_2 r,
      phi_0_padded delay_0 delay_1 delay_2 phi_0,
      alpha_0_padded delay_0 delay_1 delay_2 alpha_0,
      phi_1_padded delay_0 delay_1 delay_2 phi_1,
      alpha_1_padded delay_0 delay_1 delay_2 alpha_1,
      phi_2_padded delay_0 delay_1 delay_2 phi_2,
      alpha_2_padded delay_0 delay_1 delay_2 alpha_2]"


section \<open>Tiling of the relative channel efficiencies\<close>

definition tile :: "'a list \<Rightarrow> nat \<Rightarrow> 'a list" where
  \<comment> \<open>\<open>np.tile(A, reps)\<close> on a one-dimensional array\<close>
  "tile A reps = concat (replicate reps A)"

definition tile_etas_ch_rel :: "real list \<Rightarrow> nat \<Rightarrow> real list" where
  \<comment> \<open>\<open>reps = int(np.ceil(prog_length / 16))\<close>,
      \<open>etas_ch_rel = np.tile(etas_ch_rel, reps)[:prog_length]\<close>. The list comes from the
      device certificate; the 16 is written in the script.\<close>
  "tile_etas_ch_rel etas_ch_rel prog_length =
     (let reps = nat \<lceil>real prog_length / 16\<rceil>
      in take prog_length (tile etas_ch_rel reps))"


section \<open>The circuits of the three tutorials\<close>

text \<open>
  A circuit is the list of commands written inside \<open>prog.context\<close>. A gate argument is
  either \<open>p[k]\<close>, the symbolic parameter that takes the value of the \<open>k\<close>-th list of
  \<open>gate_args_list\<close> at each time bin, or a fixed number. \<open>N\<close> is the number of registers
  \<open>q\<close> of the program, \<open>n\<close> the mode indices obtained from \<open>get_mode_indices\<close>, and
  \<open>nargs\<close> the number of lists passed to \<open>prog.context\<close>; only \<open>len(delays)\<close> is read
  from \<open>delays\<close>. Indexing \<open>n\<close>, \<open>q\<close>, \<open>p\<close>, \<open>phis_loop\<close> or \<open>etas_loop\<close> out of
  range raises \<open>IndexError\<close>.
\<close>

datatype py_error = IndexError

datatype par = P nat | Num real

datatype operation =
    Sgate par
  | Rgate par
  | BSgate par par
  | LossChannel par
  | MeasureFock

type_synonym command = "operation \<times> nat list"

definition indices_ok :: "nat \<Rightarrow> nat list \<Rightarrow> nat \<Rightarrow> nat \<Rightarrow> nat \<Rightarrow> bool" where
  \<comment> \<open>\<open>q[0]\<close>, \<open>q[n[i]]\<close> for \<open>i \<le> loops\<close> and \<open>p[k]\<close> for \<open>k \<le> pmax\<close> exist\<close>
  "indices_ok N n loops nargs pmax \<longleftrightarrow>
     0 < N \<and> loops < length n \<and> list_all (\<lambda>m. m < N) (take (Suc loops) n) \<and> pmax < nargs"

definition prog_quickstart ::
  "nat \<Rightarrow> nat list \<Rightarrow> int list \<Rightarrow> nat \<Rightarrow> py_error + command list" where
  \<comment> \<open>\<open>prog\<close> of the quickstart tutorial\<close>
  "prog_quickstart N n delays nargs =
     (if indices_ok N n (length delays) nargs (2 * length delays) then
        Inr ([(Sgate (P 0), [n ! 0])]
             @ concat (map (\<lambda>i. [(Rgate (P (2 * i + 1)), [n ! i]),
                                   (BSgate (P (2 * i + 2)) (Num (pi / 2)), [n ! (i + 1), n ! i])])
                           [0..<length delays])
             @ [(MeasureFock, [0])])
      else Inl IndexError)"

definition prog_beginner ::
  "nat \<Rightarrow> nat list \<Rightarrow> int list \<Rightarrow> nat \<Rightarrow> py_error + command list" where
  \<comment> \<open>\<open>prog\<close> of the beginner tutorial\<close>
  "prog_beginner N n delays nargs =
     (if indices_ok N n (length delays) nargs (2 * length delays) then
        Inr ([(Sgate (P 0), [n ! 0])]
             @ concat (map (\<lambda>i. [(Rgate (P (2 * i + 1)), [n ! i]),
                                   (BSgate (P (2 * i + 2)) (Num (pi / 2)), [n ! (i + 1), n ! i])])
                           [0..<length delays])
             @ [(MeasureFock, [0])])
      else Inl IndexError)"

definition prog_advanced ::
  "nat \<Rightarrow> nat list \<Rightarrow> int list \<Rightarrow> nat \<Rightarrow> real list \<Rightarrow> py_error + command list" where
  \<comment> \<open>\<open>prog\<close> of the advanced tutorial, with the loop phases written into the circuit\<close>
  "prog_advanced N n delays nargs phis_loop =
     (if indices_ok N n (length delays) nargs (2 * length delays)
         \<and> length delays \<le> length phis_loop then
        Inr ([(Sgate (P 0), [n ! 0])]
             @ concat (map (\<lambda>i. [(Rgate (P (2 * i + 1)), [n ! i]),
                                   (BSgate (P (2 * i + 2)) (Num (pi / 2)), [n ! (i + 1), n ! i]),
                                   (Rgate (Num (phis_loop ! i)), [n ! i])])
                           [0..<length delays])
             @ [(MeasureFock, [0])])
      else Inl IndexError)"

definition prog_sim ::
  "nat \<Rightarrow> nat list \<Rightarrow> int list \<Rightarrow> nat \<Rightarrow> real list \<Rightarrow> real \<Rightarrow> real list
     \<Rightarrow> py_error + command list" where
  \<comment> \<open>\<open>prog_sim\<close> of the advanced tutorial, with the loss channels\<close>
  "prog_sim N n delays nargs phis_loop eta_glob etas_loop =
     (if indices_ok N n (length delays) nargs (max 7 (2 * length delays))
         \<and> length delays \<le> length phis_loop \<and> length delays \<le> length etas_loop then
        Inr ([(Sgate (P 0), [n ! 0]), (LossChannel (Num eta_glob), [n ! 0])]
             @ concat (map (\<lambda>i. [(Rgate (P (2 * i + 1)), [n ! i]),
                                   (BSgate (P (2 * i + 2)) (Num (pi / 2)), [n ! (i + 1), n ! i]),
                                   (Rgate (Num (phis_loop ! i)), [n ! i]),
                                   (LossChannel (Num (etas_loop ! i)), [n ! i])])
                           [0..<length delays])
             @ [(LossChannel (P 7), [0]), (MeasureFock, [0])])
      else Inl IndexError)"

definition prog_passive ::
  "nat \<Rightarrow> nat list \<Rightarrow> int list \<Rightarrow> nat \<Rightarrow> real list \<Rightarrow> real \<Rightarrow> real list
     \<Rightarrow> py_error + command list" where
  \<comment> \<open>\<open>prog_passive\<close> of the advanced tutorial, before \<open>space_unroll\<close> and \<open>compile\<close>\<close>
  "prog_passive N n delays nargs phis_loop eta_glob etas_loop =
     (if indices_ok N n (length delays) nargs (max 7 (2 * length delays))
         \<and> length delays \<le> length phis_loop \<and> length delays \<le> length etas_loop then
        Inr ([(LossChannel (Num eta_glob), [n ! 0])]
             @ concat (map (\<lambda>i. [(Rgate (P (2 * i + 1)), [n ! i]),
                                   (BSgate (P (2 * i + 2)) (Num (pi / 2)), [n ! (i + 1), n ! i]),
                                   (Rgate (Num (phis_loop ! i)), [n ! i]),
                                   (LossChannel (Num (etas_loop ! i)), [n ! i])])
                           [0..<length delays])
             @ [(LossChannel (P 7), [0])])
      else Inl IndexError)"

fun bs_args :: "command list \<Rightarrow> (par \<times> par) list" where
  \<comment> \<open>the two arguments of every beamsplitter of a circuit, in program order\<close>
  "bs_args [] = []"
| "bs_args ((BSgate a b, ms) # cs) = (a, b) # bs_args cs"
| "bs_args (c # cs) = bs_args cs"


section \<open>Cropping of the returned samples\<close>

text \<open>
  A sample array has the axes shots, spatial modes, temporal modes; its entries are photon
  numbers.
\<close>

type_synonym samples = "nat list list list"

definition crop_samples :: "nat \<Rightarrow> samples \<Rightarrow> samples" where
  \<comment> \<open>\<open>results.samples[..., 43:]\<close> of the advanced tutorial, with the offset as a parameter\<close>
  "crop_samples k samples = map (map (drop k)) samples"

text \<open>
  Modelled from the spec: the \<open>crop\<close> flag of \<open>eng.run\<close>. The engine belongs to the
  Strawberry Fields library and is not part of the sources; the tutorials only call it.
  The specification defines the flag as dropping the first \<open>\<Sigma> length_i\<close> entries along the
  temporal axis of the returned sample array; \<open>measured\<close> is the array of all measurement
  outcomes of the run.
\<close>

definition run_samples :: "bool \<Rightarrow> nat list \<Rightarrow> samples \<Rightarrow> samples" where
  "run_samples crop delays measured =
     (if crop then map (map (\<lambda>temporal. drop (sum_list delays) temporal)) measured
      else measured)"

definition shape :: "samples \<Rightarrow> nat \<Rightarrow> nat \<Rightarrow> nat \<Rightarrow> bool" where
  \<comment> \<open>\<open>samples.shape == (shots, spatial, temporal)\<close>\<close>
  "shape samples shots spatial temporal \<longleftrightarrow>
     length samples = shots
     \<and> list_all (\<lambda>shot. length shot = spatial
                         \<and> list_all (\<lambda>row. length row = temporal) shot) samples"


section \<open>The mode-index calculator\<close>

text \<open>
  Modelled from the spec: the error of the specification's taxonomy that a non-positive
  delay length or an empty loop list raises.
\<close>

datatype compile_error = ValidationError

text \<open>
  Modelled from the spec: the partial sums behind \<open>get_mode_indices\<close>, which is imported
  from \<open>strawberryfields.tdm\<close> and only called in the sources. The specification gives
  \<open>register_offsets[0] = 0\<close> and
  \<open>register_offsets[i] = register_offsets[i-1] + length_{i-1}\<close>.
\<close>

fun register_offsets :: "int \<Rightarrow> int list \<Rightarrow> int list" where
  "register_offsets acc [] = []"
| "register_offsets acc (d # ds) = acc # register_offsets (acc + d) ds"

text \<open>
  Modelled from the spec: \<open>get_mode_indices\<close> itself, returning the pair \<open>(n, N)\<close> as at
  its call sites. The specification gives \<open>N = 1 + \<Sigma> length_i\<close>, one offset per loop, an
  additional trailing offset equal to \<open>N - 1\<close>, and failure on an empty list or a length
  that is not positive.
\<close>

definition get_mode_indices :: "int list \<Rightarrow> compile_error + (int list \<times> int)" where
  "get_mode_indices delays =
     (if delays = [] \<or> list_ex (\<lambda>d. d \<le> 0) delays then Inl ValidationError
      else (let N = 1 + sum_list delays
            in Inr (register_offsets 0 delays @ [N - 1], N)))"


section \<open>Squeezing quantization\<close>

text \<open>
  Modelled from the spec: the choice between two supported squeezing values, part of
  \<open>full_compile\<close>, which is imported from \<open>strawberryfields.tdm\<close> and only called in the
  sources. The specification asks for the supported value minimizing the absolute
  difference, ties resolved toward the lower supported value. Values are real numbers.
\<close>

definition nearer :: "real \<Rightarrow> real \<Rightarrow> real \<Rightarrow> real" where
  "nearer x best s =
     (if \<bar>x - s\<bar> < \<bar>x - best\<bar> \<or> (\<bar>x - s\<bar> = \<bar>x - best\<bar> \<and> s < best) then s else best)"

text \<open>
  Modelled from the spec: quantization of one requested squeezing value against the list
  of supported values of the device certificate. The specification does not say what
  happens when no value is supported; the model returns \<open>None\<close> then.
\<close>

definition quantize :: "real list \<Rightarrow> real \<Rightarrow> real option" where
  "quantize supported x =
     (case supported of [] \<Rightarrow> None | s # ss \<Rightarrow> Some (foldl (nearer x) s ss))"

definition no_worse :: "real \<Rightarrow> real \<Rightarrow> real \<Rightarrow> bool" where
  \<comment> \<open>\<open>q\<close> is at least as good a choice for \<open>x\<close> as \<open>s\<close>: closer, or as close and not larger\<close>
  "no_worse x q s \<longleftrightarrow> \<bar>x - q\<bar> < \<bar>x - s\<bar> \<or> (\<bar>x - q\<bar> = \<bar>x - s\<bar> \<and> q \<le> s)"


section \<open>The transfer matrix\<close>

type_synonym matrix = "complex list list"

text \<open>
  Modelled from the spec: the operations of an unrolled circuit as the transfer-operator
  extractor sees them. Unrolling and the \<open>passive\<close> compiler belong to the Strawberry
  Fields library; the sources only call \<open>space_unroll\<close> and \<open>compile\<close>. The
  specification speaks of two-register interactions with a 2 by 2 operator, of losses with
  a 1 by 1 operator, and of squeezing operations. The entries of the operators are data
  here, row by row, since the specification does not give them.
\<close>

datatype unrolled_op =
    Interaction nat nat complex complex complex complex
  | Loss nat complex
  | Squeezing nat real

text \<open>
  Modelled from the spec: the failure of the extractor on a circuit that is not passive.
\<close>

datatype extract_error = NonPassiveOperation

text \<open>Modelled from the spec: the non-passive operations are the squeezing operations.\<close>

fun is_squeezing :: "unrolled_op \<Rightarrow> bool" where
  "is_squeezing (Squeezing i r) = True"
| "is_squeezing op = False"

text \<open>
  Modelled from the spec: the entry of an operation's operator embedded into the identity
  over the full register set. A register outside the register set leaves the identity
  as it is.
\<close>

fun entry :: "unrolled_op \<Rightarrow> nat \<Rightarrow> nat \<Rightarrow> complex" where
  "entry (Interaction i j a b c d) row col =
     (if row = i \<and> col = i then a
      else if row = i \<and> col = j then b
      else if row = j \<and> col = i then c
      else if row = j \<and> col = j then d
      else if row = col then 1 else 0)"
| "entry (Loss i a) row col =
     (if row = i \<and> col = i then a else if row = col then 1 else 0)"
| "entry (Squeezing i r) row col = (if row = col then 1 else 0)"

text \<open>Modelled from the spec: the identity over \<open>L\<close> registers.\<close>

definition identity :: "nat \<Rightarrow> matrix" where
  "identity L = map (\<lambda>row. map (\<lambda>col. if row = col then 1 else 0) [0..<L]) [0..<L]"

text \<open>Modelled from the spec: the embedding of one operation over \<open>L\<close> registers.\<close>

definition embed :: "nat \<Rightarrow> unrolled_op \<Rightarrow> matrix" where
  "embed L op = map (\<lambda>row. map (\<lambda>col. entry op row col) [0..<L]) [0..<L]"

text \<open>Modelled from the spec: the product of two matrices over \<open>L\<close> registers.\<close>

definition mat_mult :: "nat \<Rightarrow> matrix \<Rightarrow> matrix \<Rightarrow> matrix" where
  "mat_mult L A B =
     map (\<lambda>row. map (\<lambda>col. sum_list (map (\<lambda>k. row ! k * (B ! k ! col)) [0..<L])) [0..<L]) A"

text \<open>
  Modelled from the spec: the extractor. It fails when the circuit contains a squeezing
  operation; otherwise it starts from the identity and multiplies the embedding of each
  operation from the left, in chronological order.
\<close>

definition transfer_matrix_tot :: "nat \<Rightarrow> unrolled_op list \<Rightarrow> extract_error + matrix" where
  "transfer_matrix_tot L ops =
     (if list_ex is_squeezing ops then Inl NonPassiveOperation
      else Inr (foldl (\<lambda>T op. mat_mult L (embed L op) T) (identity L) ops))"

text \<open>
  Modelled from the spec: the passive action of one operation on the amplitudes of the
  registers, held as a column vector. A two-register interaction replaces the amplitudes
  of its two registers by its 2 by 2 operator applied to them, a loss scales the amplitude
  of its register by its 1 by 1 operator, and a squeezing operation has no passive action.
\<close>

fun apply_op :: "unrolled_op \<Rightarrow> complex list \<Rightarrow> complex list option" where
  "apply_op (Interaction i j a b c d) v =
     Some (v[i := a * v ! i + b * v ! j, j := c * v ! i + d * v ! j])"
| "apply_op (Loss i a) v = Some (v[i := a * v ! i])"
| "apply_op (Squeezing i r) v = None"

text \<open>
  Modelled from the spec: the composed passive action of a circuit, its operations applied
  in chronological order.
\<close>

fun composed_action :: "unrolled_op list \<Rightarrow> complex list \<Rightarrow> complex list option" where
  "composed_action [] v = Some v"
| "composed_action (op # ops) v =
     (case apply_op op v of None \<Rightarrow> None | Some v' \<Rightarrow> composed_action ops v')"

text \<open>
  Modelled from the spec: an operation of a circuit over \<open>L\<close> registers references
  registers of the register set only, and a two-register interaction two different ones.
\<close>

fun registers_ok :: "nat \<Rightarrow> unrolled_op \<Rightarrow> bool" where
  "registers_ok L (Interaction i j a b c d) \<longleftrightarrow> i < L \<and> j < L \<and> i \<noteq> j"
| "registers_ok L (Loss i a) \<longleftrightarrow> i < L"
| "registers_ok L (Squeezing i r) \<longleftrightarrow> i < L"

definition mat_vec :: "nat \<Rightarrow> matrix \<Rightarrow> complex list \<Rightarrow> complex list" where
  \<comment> \<open>the product of a matrix of \<open>L\<close> columns with a column vector\<close>
  "mat_vec L A v = map (\<lambda>row. sum_list (map (\<lambda>k. row ! k * v ! k) [0..<L])) A"

definition transfer_matrix :: "matrix \<Rightarrow> nat \<Rightarrow> nat \<Rightarrow> matrix" where
  \<comment> \<open>\<open>transfer_matrix_tot[vac_modes:prog_length, vac_modes:prog_length]\<close> of the advanced
      tutorial\<close>
  "transfer_matrix T vac_modes prog_length =
     map (\<lambda>row. take (prog_length - vac_modes) (drop vac_modes row))
         (take (prog_length - vac_modes) (drop vac_modes T))"

definition square :: "nat \<Rightarrow> matrix \<Rightarrow> bool" where
  \<comment> \<open>\<open>T.shape == (k, k)\<close>\<close>
  "square k T \<longleftrightarrow> length T = k \<and> list_all (\<lambda>row. length row = k) T"


section \<open>Properties of the padded sequences\<close>

lemmas padded_defs =
  r_padded_def phi_0_padded_def alpha_0_padded_def phi_1_padded_def alpha_1_padded_def
  phi_2_padded_def alpha_2_padded_def fill_loop_def await_first_mode_def empty_loop_def

lemma length_fill_loop: "length (fill_loop d xs) = max d (length xs)"
  by (simp add: fill_loop_def)

lemma bs_layout:
  "empty_loop post (await_first_mode pre (fill_loop d alpha))
     = replicate (pre + d) 0 @ drop d alpha @ replicate post 0"
  by (simp add: empty_loop_def await_first_mode_def fill_loop_def replicate_add)

lemma bs_fill:
  "take d (empty_loop post (await_first_mode pre (fill_loop d alpha))) = replicate d 0"
  by (simp add: bs_layout min_def)

lemma bs_drain:
  "drop (length (empty_loop post (await_first_mode pre (fill_loop d alpha))) - post)
        (empty_loop post (await_first_mode pre (fill_loop d alpha))) = replicate post 0"
  by (simp add: bs_layout)

lemma bs_user:
  "take (length alpha - d)
        (drop (pre + d) (empty_loop post (await_first_mode pre (fill_loop d alpha))))
     = drop d alpha"
  by (simp add: bs_layout)

lemma await_first_mode_0: "await_first_mode 0 xs = xs"
  by (simp add: await_first_mode_def)


subsection \<open>Common length of the padded sequences\<close>

text \<open>
  Claim C1, as amended. The script pads three loops. When the seven raw lists all have
  length \<open>M\<close> and no delay exceeds \<open>M\<close>, every list of \<open>gate_args_list\<close> has length
  \<open>M + (delay_0 + delay_1 + delay_2)\<close>; for the delays 1, 6, 36 and 216 modes that is 259.
  The bound on the delays is needed: the slice assignment of the fill step lengthens a
  beamsplitter list that is shorter than its delay.
\<close>

theorem gate_args_list_common_length:
  assumes "length r = M" "length phi_0 = M" "length alpha_0 = M" "length phi_1 = M"
    "length alpha_1 = M" "length phi_2 = M" "length alpha_2 = M"
    "delay_0 \<le> M" "delay_1 \<le> M" "delay_2 \<le> M"
  shows "map length
           (gate_args_list delay_0 delay_1 delay_2 r phi_0 alpha_0 phi_1 alpha_1 phi_2 alpha_2)
         = replicate 7 (M + (delay_0 + delay_1 + delay_2))"
  using assms by (simp add: gate_args_list_def padded_defs numeral_eq_Suc)

theorem gate_args_list_common_length_witness:
  "map length
     (gate_args_list 1 6 36 (squeezing_list 1 216) (replicate 216 0) (replicate 216 1)
        (replicate 216 0) (replicate 216 1) (replicate 216 0) (replicate 216 1))
   = replicate 7 259"
  using gate_args_list_common_length
    [of "squeezing_list 1 216" 216 "replicate 216 0" "replicate 216 1" "replicate 216 0"
        "replicate 216 1" "replicate 216 0" "replicate 216 1" 1 6 36]
  by (simp add: squeezing_list_def)

text \<open>
  With a single computational mode and the delays 1, 6, 36 the lists of the second and
  third beamsplitter come out with 49 and 79 entries, the other five with 44.
\<close>

theorem gate_args_list_length_counterexample:
  "map length (gate_args_list 1 6 36 (squeezing_list 1 1) [0] [1] [0] [1] [0] [1])
     = [44, 44, 44, 44, 49, 44, 79]
   \<and> map length (gate_args_list 1 6 36 (squeezing_list 1 1) [0] [1] [0] [1] [0] [1])
     \<noteq> replicate 7 (1 + (1 + 6 + 36))"
  by (simp add: gate_args_list_def padded_defs squeezing_list_def numeral_eq_Suc)


subsection \<open>Loop fill and loop drain of the beamsplitter sequences\<close>

text \<open>
  Claim C2, as amended. For raw beamsplitter lists of length \<open>M\<close>, the padded sequence of
  each loop starts with as many zeros as the loop's delay and ends with as many zeros as
  the delays of this and all later loops add up to. The user's values survive at their
  raw positions from the loop's delay onwards, shifted by the delays of the earlier loops:
  \<open>M - delay\<close> of them, not \<open>M\<close>. With the delays 3, 0, 0 (one effective loop) and five
  modes, the first loop's sequence is zero at the indices 0, 1, 2 and 5, 6, 7 and holds
  the user's fourth and fifth value at the indices 3 and 4.
\<close>

theorem beamsplitter_fill_drain:
  assumes "length alpha_0 = M" "length alpha_1 = M" "length alpha_2 = M"
  shows "take delay_0 (alpha_0_padded delay_0 delay_1 delay_2 alpha_0) = replicate delay_0 0
    \<and> drop (length (alpha_0_padded delay_0 delay_1 delay_2 alpha_0)
             - (delay_0 + delay_1 + delay_2))
         (alpha_0_padded delay_0 delay_1 delay_2 alpha_0)
       = replicate (delay_0 + delay_1 + delay_2) 0
    \<and> take (M - delay_0) (drop delay_0 (alpha_0_padded delay_0 delay_1 delay_2 alpha_0))
       = drop delay_0 alpha_0
    \<and> take delay_1 (alpha_1_padded delay_0 delay_1 delay_2 alpha_1) = replicate delay_1 0
    \<and> drop (length (alpha_1_padded delay_0 delay_1 delay_2 alpha_1) - (delay_1 + delay_2))
         (alpha_1_padded delay_0 delay_1 delay_2 alpha_1)
       = replicate (delay_1 + delay_2) 0
    \<and> take (M - delay_1)
         (drop (delay_0 + delay_1) (alpha_1_padded delay_0 delay_1 delay_2 alpha_1))
       = drop delay_1 alpha_1
    \<and> take delay_2 (alpha_2_padded delay_0 delay_1 delay_2 alpha_2) = replicate delay_2 0
    \<and> drop (length (alpha_2_padded delay_0 delay_1 delay_2 alpha_2) - delay_2)
         (alpha_2_padded delay_0 delay_1 delay_2 alpha_2)
       = replicate delay_2 0
    \<and> take (M - delay_2)
         (drop (delay_0 + delay_1 + delay_2) (alpha_2_padded delay_0 delay_1 delay_2 alpha_2))
       = drop delay_2 alpha_2
    \<and> alpha_0_padded 3 0 0 [a0, a1, a2, a3, a4] = [0, 0, 0, a3, a4, 0, 0, 0]"
proof -
  have a0: "alpha_0_padded delay_0 delay_1 delay_2 alpha_0
      = empty_loop (delay_0 + delay_1 + delay_2) (await_first_mode 0 (fill_loop delay_0 alpha_0))"
    by (simp add: alpha_0_padded_def await_first_mode_0)
  have u0: "take (M - delay_0) (drop delay_0 (alpha_0_padded delay_0 delay_1 delay_2 alpha_0))
      = drop delay_0 alpha_0"
    using bs_user [of alpha_0 delay_0 0 "delay_0 + delay_1 + delay_2"] assms(1)
    by (simp add: a0)
  have u1: "take (M - delay_1)
        (drop (delay_0 + delay_1) (alpha_1_padded delay_0 delay_1 delay_2 alpha_1))
      = drop delay_1 alpha_1"
    using bs_user [of alpha_1 delay_1 delay_0 "delay_1 + delay_2"] assms(2)
    by (simp add: alpha_1_padded_def)
  have u2: "take (M - delay_2)
        (drop (delay_0 + delay_1 + delay_2) (alpha_2_padded delay_0 delay_1 delay_2 alpha_2))
      = drop delay_2 alpha_2"
    using bs_user [of alpha_2 delay_2 "delay_0 + delay_1" delay_2] assms(3)
    by (simp add: alpha_2_padded_def)
  have d: "alpha_0_padded 3 0 0 [a0, a1, a2, a3, a4] = [0, 0, 0, a3, a4, 0, 0, 0]"
    by (simp add: padded_defs numeral_eq_Suc)
  show ?thesis
    unfolding u0 u1 u2 d
    unfolding a0 alpha_1_padded_def alpha_2_padded_def bs_fill bs_drain by simp
qed

theorem beamsplitter_fill_drain_witness:
  "alpha_0_padded 1 2 3 [1, 2, 3, 4, 5] = [0, 2, 3, 4, 5, 0, 0, 0, 0, 0, 0]
   \<and> take 4 (drop 1 (alpha_0_padded 1 2 3 [1, 2, 3, 4, 5])) = [2, 3, 4, 5]
   \<and> alpha_1_padded 1 2 3 [1, 2, 3, 4, 5] = [0, 0, 0, 3, 4, 5, 0, 0, 0, 0, 0]
   \<and> take 3 (drop 3 (alpha_1_padded 1 2 3 [1, 2, 3, 4, 5])) = [3, 4, 5]
   \<and> alpha_2_padded 1 2 3 [1, 2, 3, 4, 5] = [0, 0, 0, 0, 0, 0, 4, 5, 0, 0, 0]
   \<and> take 2 (drop 6 (alpha_2_padded 1 2 3 [1, 2, 3, 4, 5])) = [4, 5]"
  using beamsplitter_fill_drain [of "[1, 2, 3, 4, 5]" 5 "[1, 2, 3, 4, 5]" "[1, 2, 3, 4, 5]" 1 2 3]
  by (simp add: padded_defs numeral_eq_Suc)

text \<open>
  For the delays 3, 1, 1 and five modes the first loop's sequence has ten entries; between
  its first three and its last five entries lie two user values, not five.
\<close>

theorem beamsplitter_middle_counterexample:
  "drop 3 (take (length (alpha_0_padded 3 1 1 [1, 2, 3, 4, 5]) - (3 + 1 + 1))
                (alpha_0_padded 3 1 1 [1, 2, 3, 4, 5])) = [4, 5]
   \<and> drop 3 (take (length (alpha_0_padded 3 1 1 [1, 2, 3, 4, 5]) - (3 + 1 + 1))
                (alpha_0_padded 3 1 1 [1, 2, 3, 4, 5])) \<noteq> [1, 2, 3, 4, 5]"
  by (simp add: padded_defs numeral_eq_Suc)


section \<open>Properties of the efficiency tiling\<close>

lemma length_tile: "length (tile A reps) = reps * length A"
  by (induction reps) (simp_all add: tile_def)

lemma nth_tile: "t < reps * length A \<Longrightarrow> tile A reps ! t = A ! (t mod length A)"
proof (induction reps arbitrary: t)
  case 0
  then show ?case by simp
next
  case (Suc k)
  have unf: "tile A (Suc k) = A @ tile A k"
    by (simp add: tile_def)
  show ?case
  proof (cases "t < length A")
    case True
    then show ?thesis by (simp add: unf nth_append)
  next
    case False
    then have "t - length A < k * length A"
      using Suc.prems by simp
    then have "tile A k ! (t - length A) = A ! ((t - length A) mod length A)"
      by (rule Suc.IH)
    with False show ?thesis
      by (simp add: unf nth_append le_mod_geq)
  qed
qed

lemma reps_16: "nat \<lceil>real n / 16\<rceil> = (n + 15) div 16"
proof -
  have "\<lceil>real n / 16\<rceil> = \<lceil>(of_int (int n) :: real) / of_int 16\<rceil>"
    by simp
  also have "\<dots> = - ((- int n) div 16)"
    unfolding ceiling_divide_eq_div by simp
  finally show ?thesis by linarith
qed

lemma reps_enough:
  assumes "16 \<le> c"
  shows "n \<le> c * nat \<lceil>real n / 16\<rceil>"
proof -
  have "n \<le> 16 * ((n + 15) div 16)"
    by linarith
  also have "\<dots> \<le> c * ((n + 15) div 16)"
    using assms by simp
  finally show ?thesis
    by (simp add: reps_16)
qed

text \<open>
  Claim C6, as amended. The script computes the number of repetitions from the constant
  16, not from the length \<open>C\<close> of the efficiency list. Whenever \<open>C\<close> repetitions of that
  count cover the program length (always so when \<open>C\<close> is at least 16), the tiled list has
  exactly \<open>prog_length\<close> entries and entry \<open>t\<close> is \<open>etas_ch_rel[t mod C]\<close>, so time bin
  \<open>t\<close> is assigned detector \<open>t mod C\<close>.
\<close>

theorem tile_etas_ch_rel_periodic:
  assumes "16 \<le> length etas_ch_rel
           \<or> prog_length \<le> length etas_ch_rel * nat \<lceil>real prog_length / 16\<rceil>"
  shows "length (tile_etas_ch_rel etas_ch_rel prog_length) = prog_length
       \<and> (\<forall>t<prog_length.
            tile_etas_ch_rel etas_ch_rel prog_length ! t
            = etas_ch_rel ! (t mod length etas_ch_rel))"
proof -
  have "prog_length \<le> nat \<lceil>real prog_length / 16\<rceil> * length etas_ch_rel"
    using assms reps_enough [of "length etas_ch_rel" prog_length]
    by (auto simp: mult.commute)
  then show ?thesis
    by (simp add: tile_etas_ch_rel_def Let_def length_tile nth_tile)
qed

theorem tile_etas_ch_rel_periodic_witness:
  "length (tile_etas_ch_rel [1, 2, 3, 4, 5, 6, 7, 8, 9, 10, 11, 12, 13, 14, 15, 16] 259) = 259
   \<and> tile_etas_ch_rel [1, 2, 3, 4, 5, 6, 7, 8, 9, 10, 11, 12, 13, 14, 15, 16] 259 ! 20 = 5
   \<and> [1, 2, 3, 4, 5, 6, 7, 8, 9, 10, 11, 12, 13, 14, 15, 16] ! 4 = (5::real)"
  using tile_etas_ch_rel_periodic [of "[1, 2, 3, 4, 5, 6, 7, 8, 9, 10, 11, 12, 13, 14, 15, 16]" 259]
  by simp

text \<open>
  An efficiency list of eight channels is repeated 17 times for a program of length 259,
  which gives 136 entries only.
\<close>

theorem tile_etas_ch_rel_short_counterexample:
  "length (tile_etas_ch_rel [1, 2, 3, 4, 5, 6, 7, 8] 259) = 136
   \<and> length (tile_etas_ch_rel [1, 2, 3, 4, 5, 6, 7, 8] 259) \<noteq> 259"
  by (simp add: tile_etas_ch_rel_def length_tile reps_16)


section \<open>Properties of the circuits\<close>

lemma bs_args_append: "bs_args (xs @ ys) = bs_args xs @ bs_args ys"
  by (induction xs rule: bs_args.induct) simp_all

lemma bs_args_concat: "bs_args (concat xss) = concat (map bs_args xss)"
  by (induction xss) (simp_all add: bs_args_append)

lemmas prog_defs =
  prog_quickstart_def prog_beginner_def prog_advanced_def prog_sim_def prog_passive_def

text \<open>
  Claim C10. Whichever of the five circuits of the tutorials is built, its beamsplitters
  are, in program order, exactly \<open>BSgate(p[2 * i + 2], pi / 2)\<close> for \<open>i\<close> in
  \<open>range(len(delays))\<close>: the second argument is the constant \<open>pi / 2\<close> and the first is a
  parameter that varies per time bin. No input of the circuit reaches the second argument.
\<close>

theorem beamsplitter_phase_fixed:
  assumes "Inr ops \<in> {prog_quickstart N n delays nargs,
                       prog_beginner N n delays nargs,
                       prog_advanced N n delays nargs phis_loop,
                       prog_sim N n delays nargs phis_loop eta_glob etas_loop,
                       prog_passive N n delays nargs phis_loop eta_glob etas_loop}"
  shows "bs_args ops = map (\<lambda>i. (P (2 * i + 2), Num (pi / 2))) [0..<length delays]"
  using assms
  by (auto simp: prog_defs bs_args_append bs_args_concat comp_def split: if_splits)

theorem beamsplitter_phase_fixed_witness:
  "bs_args (projr (prog_quickstart 44 [0, 1, 7, 43] [1, 6, 36] 7))
     = [(P 2, Num (pi / 2)), (P 4, Num (pi / 2)), (P 6, Num (pi / 2))]
   \<and> bs_args (projr (prog_beginner 44 [0, 1, 7, 43] [1, 6, 36] 7))
     = [(P 2, Num (pi / 2)), (P 4, Num (pi / 2)), (P 6, Num (pi / 2))]
   \<and> bs_args (projr (prog_advanced 44 [0, 1, 7, 43] [1, 6, 36] 7 [1/10, 2/10, 3/10]))
     = [(P 2, Num (pi / 2)), (P 4, Num (pi / 2)), (P 6, Num (pi / 2))]
   \<and> prog_sim 44 [0, 1, 7, 43] [1, 6, 36] 8 [1/10, 2/10, 3/10] (9/10) [8/10, 7/10, 6/10]
     = Inr [(Sgate (P 0), [0]), (LossChannel (Num (9/10)), [0]),
            (Rgate (P 1), [0]), (BSgate (P 2) (Num (pi / 2)), [1, 0]),
            (Rgate (Num (1/10)), [0]), (LossChannel (Num (8/10)), [0]),
            (Rgate (P 3), [1]), (BSgate (P 4) (Num (pi / 2)), [7, 1]),
            (Rgate (Num (2/10)), [1]), (LossChannel (Num (7/10)), [1]),
            (Rgate (P 5), [7]), (BSgate (P 6) (Num (pi / 2)), [43, 7]),
            (Rgate (Num (3/10)), [7]), (LossChannel (Num (6/10)), [7]),
            (LossChannel (P 7), [0]), (MeasureFock, [0])]
   \<and> bs_args (projr (prog_sim 44 [0, 1, 7, 43] [1, 6, 36] 8 [1/10, 2/10, 3/10] (9/10)
                        [8/10, 7/10, 6/10]))
     = [(P 2, Num (pi / 2)), (P 4, Num (pi / 2)), (P 6, Num (pi / 2))]
   \<and> bs_args (projr (prog_passive 44 [0, 1, 7, 43] [1, 6, 36] 9 [1/10, 2/10, 3/10] (9/10)
                        [8/10, 7/10, 6/10]))
     = [(P 2, Num (pi / 2)), (P 4, Num (pi / 2)), (P 6, Num (pi / 2))]"
proof -
  let ?n = "[0, 1, 7, 43] :: nat list"
  let ?d = "[1, 6, 36] :: int list"
  let ?phis = "[1/10, 2/10, 3/10] :: real list"
  let ?etas = "[8/10, 7/10, 6/10] :: real list"
  let ?bs = "map (\<lambda>i. (P (2 * i + 2), Num (pi / 2))) [0..<length ?d]"
  have up: "?bs = [(P 2, Num (pi / 2)), (P 4, Num (pi / 2)), (P 6, Num (pi / 2))]"
    by (simp add: upt_conv_Cons)
  have q: "Inr (projr (prog_quickstart 44 ?n ?d 7)) = prog_quickstart 44 ?n ?d 7"
    by (simp add: prog_quickstart_def indices_ok_def)
  have b: "Inr (projr (prog_beginner 44 ?n ?d 7)) = prog_beginner 44 ?n ?d 7"
    by (simp add: prog_beginner_def indices_ok_def)
  have a: "Inr (projr (prog_advanced 44 ?n ?d 7 ?phis)) = prog_advanced 44 ?n ?d 7 ?phis"
    by (simp add: prog_advanced_def indices_ok_def)
  have s: "Inr (projr (prog_sim 44 ?n ?d 8 ?phis (9/10) ?etas))
             = prog_sim 44 ?n ?d 8 ?phis (9/10) ?etas"
    by (simp add: prog_sim_def indices_ok_def)
  have p: "Inr (projr (prog_passive 44 ?n ?d 9 ?phis (9/10) ?etas))
             = prog_passive 44 ?n ?d 9 ?phis (9/10) ?etas"
    by (simp add: prog_passive_def indices_ok_def)
  have "bs_args (projr (prog_quickstart 44 ?n ?d 7)) = ?bs"
    by (rule beamsplitter_phase_fixed
          [of "projr (prog_quickstart 44 ?n ?d 7)" 44 ?n ?d 7 ?phis "9/10" ?etas])
       (simp only: q insertI1)
  moreover have "bs_args (projr (prog_beginner 44 ?n ?d 7)) = ?bs"
    by (rule beamsplitter_phase_fixed
          [of "projr (prog_beginner 44 ?n ?d 7)" 44 ?n ?d 7 ?phis "9/10" ?etas])
       (simp only: b insertI1 insert_iff simp_thms)
  moreover have "bs_args (projr (prog_advanced 44 ?n ?d 7 ?phis)) = ?bs"
    by (rule beamsplitter_phase_fixed
          [of "projr (prog_advanced 44 ?n ?d 7 ?phis)" 44 ?n ?d 7 ?phis "9/10" ?etas])
       (simp only: a insertI1 insert_iff simp_thms)
  moreover have "bs_args (projr (prog_sim 44 ?n ?d 8 ?phis (9/10) ?etas)) = ?bs"
    by (rule beamsplitter_phase_fixed
          [of "projr (prog_sim 44 ?n ?d 8 ?phis (9/10) ?etas)" 44 ?n ?d 8 ?phis "9/10" ?etas])
       (simp only: s insertI1 insert_iff simp_thms)
  moreover have "bs_args (projr (prog_passive 44 ?n ?d 9 ?phis (9/10) ?etas)) = ?bs"
    by (rule beamsplitter_phase_fixed
          [of "projr (prog_passive 44 ?n ?d 9 ?phis (9/10) ?etas)" 44 ?n ?d 9 ?phis "9/10" ?etas])
       (simp only: p insertI1 insert_iff simp_thms)
  moreover have "prog_sim 44 ?n ?d 8 ?phis (9/10) ?etas
     = Inr [(Sgate (P 0), [0]), (LossChannel (Num (9/10)), [0]),
            (Rgate (P 1), [0]), (BSgate (P 2) (Num (pi / 2)), [1, 0]),
            (Rgate (Num (1/10)), [0]), (LossChannel (Num (8/10)), [0]),
            (Rgate (P 3), [1]), (BSgate (P 4) (Num (pi / 2)), [7, 1]),
            (Rgate (Num (2/10)), [1]), (LossChannel (Num (7/10)), [1]),
            (Rgate (P 5), [7]), (BSgate (P 6) (Num (pi / 2)), [43, 7]),
            (Rgate (Num (3/10)), [7]), (LossChannel (Num (6/10)), [7]),
            (LossChannel (P 7), [0]), (MeasureFock, [0])]"
    by (simp add: prog_sim_def indices_ok_def upt_conv_Cons)
  ultimately show ?thesis
    unfolding up by blast
qed


section \<open>Properties of cropping\<close>

text \<open>
  Claim C5. For a run whose measured array has the shape \<open>(shots, 1, L)\<close> with
  \<open>L = M + \<Sigma> length_i\<close>, the samples returned with \<open>crop\<close> set are the samples returned
  without it, sliced by hand from index \<open>\<Sigma> length_i\<close> along the temporal axis. The
  uncropped array has the shape \<open>(shots, 1, L)\<close>, the cropped one \<open>(shots, 1, M)\<close>, and
  every cropped entry is the measured entry \<open>\<Sigma> length_i\<close> places later. For the delays
  1, 6, 36 the slice starts at 43.
\<close>

theorem crop_is_slice:
  assumes "shape measured shots 1 (M + sum_list delays)"
  shows "run_samples True delays measured
           = crop_samples (sum_list delays) (run_samples False delays measured)
       \<and> shape (run_samples False delays measured) shots 1 (M + sum_list delays)
       \<and> shape (run_samples True delays measured) shots 1 M
       \<and> (\<forall>s<shots. \<forall>t<M. run_samples True delays measured ! s ! 0 ! t
                              = measured ! s ! 0 ! (sum_list delays + t))
       \<and> crop_samples (sum_list [1, 6, 36]) = crop_samples 43"
proof -
  have eq: "run_samples True delays measured
           = crop_samples (sum_list delays) (run_samples False delays measured)"
    by (simp add: run_samples_def crop_samples_def)
  have full: "shape (run_samples False delays measured) shots 1 (M + sum_list delays)"
    using assms by (simp add: run_samples_def)
  have cropped: "shape (run_samples True delays measured) shots 1 M"
    using assms by (auto simp: run_samples_def shape_def list_all_iff)
  have entry: "run_samples True delays measured ! s ! 0 ! t
                 = measured ! s ! 0 ! (sum_list delays + t)"
    if "s < shots" "t < M" for s t
  proof -
    have s: "s < length measured"
      using assms that(1) by (simp add: shape_def)
    then have m: "measured ! s \<in> set measured"
      by simp
    then have one: "length (measured ! s) = 1"
      using assms by (simp add: shape_def list_all_iff)
    then have "measured ! s ! 0 \<in> set (measured ! s)"
      by simp
    then have "length (measured ! s ! 0) = M + sum_list delays"
      using assms m by (simp add: shape_def list_all_iff)
    then show ?thesis
      using s one that(2) by (simp add: run_samples_def)
  qed
  have "sum_list [1, 6, 36 :: nat] = 43"
    by simp
  then have "crop_samples (sum_list [1, 6, 36]) = crop_samples 43"
    by simp
  then show ?thesis
    using eq full cropped entry by blast
qed

theorem crop_is_slice_witness:
  "shape [[[0, 0, 0, 5, 7]], [[0, 0, 0, 1, 2]]] 2 1 (2 + sum_list [1, 2])
   \<and> run_samples True [1, 2] [[[0, 0, 0, 5, 7]], [[0, 0, 0, 1, 2]]] = [[[5, 7]], [[1, 2]]]
   \<and> crop_samples 3 (run_samples False [1, 2] [[[0, 0, 0, 5, 7]], [[0, 0, 0, 1, 2]]])
       = [[[5, 7]], [[1, 2]]]
   \<and> shape (run_samples True [1, 2] [[[0, 0, 0, 5, 7]], [[0, 0, 0, 1, 2]]]) 2 1 2"
  using crop_is_slice [of "[[[0, 0, 0, 5, 7]], [[0, 0, 0, 1, 2]]]" 2 2 "[1, 2]"]
  by (simp add: shape_def run_samples_def crop_samples_def)


section \<open>Properties of the mode-index calculator\<close>

lemma length_register_offsets: "length (register_offsets acc ds) = length ds"
  by (induction ds arbitrary: acc) simp_all

lemma nth_register_offsets:
  "i < length ds \<Longrightarrow> register_offsets acc ds ! i = acc + sum_list (take i ds)"
proof (induction ds arbitrary: acc i)
  case Nil
  then show ?case by simp
next
  case (Cons d ds)
  then show ?case by (cases i) simp_all
qed

lemma register_offsets_step:
  assumes "0 < i" "i < length ds"
  shows "register_offsets acc ds ! i = register_offsets acc ds ! (i - 1) + ds ! (i - 1)"
proof -
  obtain j where j: "i = Suc j"
    using assms(1) by (cases i) auto
  have "take (Suc j) ds = take j ds @ [ds ! j]"
    using assms(2) j by (simp add: take_Suc_conv_app_nth)
  then show ?thesis
    using assms j by (simp add: nth_register_offsets)
qed

text \<open>
  Claim C3. \<open>get_mode_indices\<close> fails exactly on an empty list and on a list with a length
  that is not positive. On every other list it returns \<open>N = 1 + \<Sigma> length_i\<close> and
  \<open>len(delays) + 1\<close> offsets: the first is 0, each further loop offset is the previous
  one plus the previous length, and the trailing offset is \<open>N - 1\<close>, which also continues
  the recurrence. For the delays 1, 6, 36 it yields \<open>N = 44\<close> and the offsets 0, 1, 7, 43.
\<close>

theorem get_mode_indices_profile:
  "(get_mode_indices delays = Inl ValidationError
      \<longleftrightarrow> delays = [] \<or> (\<exists>d\<in>set delays. d \<le> 0))
   \<and> (delays \<noteq> [] \<and> (\<forall>d\<in>set delays. 0 < d) \<longrightarrow>
        (\<exists>n. get_mode_indices delays = Inr (n, 1 + sum_list delays)
           \<and> length n = length delays + 1
           \<and> n ! 0 = 0
           \<and> (\<forall>i. 0 < i \<and> i < length delays \<longrightarrow> n ! i = n ! (i - 1) + delays ! (i - 1))
           \<and> n ! length delays = (1 + sum_list delays) - 1
           \<and> n ! length delays = n ! (length delays - 1) + delays ! (length delays - 1)))
   \<and> get_mode_indices [1, 6, 36] = Inr ([0, 1, 7, 43], 44)"
proof -
  have fails: "get_mode_indices delays = Inl ValidationError
                 \<longleftrightarrow> delays = [] \<or> (\<exists>d\<in>set delays. d \<le> 0)"
    by (auto simp: get_mode_indices_def Let_def list_ex_iff)
  have ok: "\<exists>n. get_mode_indices delays = Inr (n, 1 + sum_list delays)
           \<and> length n = length delays + 1
           \<and> n ! 0 = 0
           \<and> (\<forall>i. 0 < i \<and> i < length delays \<longrightarrow> n ! i = n ! (i - 1) + delays ! (i - 1))
           \<and> n ! length delays = (1 + sum_list delays) - 1
           \<and> n ! length delays = n ! (length delays - 1) + delays ! (length delays - 1)"
    if ne: "delays \<noteq> []" and pos: "\<forall>d\<in>set delays. 0 < d"
  proof -
    let ?n = "register_offsets 0 delays @ [(1 + sum_list delays) - 1]"
    have run: "get_mode_indices delays = Inr (?n, 1 + sum_list delays)"
      using ne pos by (auto simp: get_mode_indices_def Let_def list_ex_iff)
    have len: "length ?n = length delays + 1"
      by (simp add: length_register_offsets)
    have zero: "?n ! 0 = 0"
      using ne by (cases delays) simp_all
    have step: "?n ! i = ?n ! (i - 1) + delays ! (i - 1)" if "0 < i" "i < length delays" for i
    proof -
      have "i - 1 < length delays"
        using that by simp
      then show ?thesis
        using that register_offsets_step [of i delays 0]
        by (simp add: nth_append length_register_offsets)
    qed
    have last: "?n ! length delays = (1 + sum_list delays) - 1"
      by (simp add: nth_append length_register_offsets)
    have "?n ! (length delays - 1) = sum_list (take (length delays - 1) delays)"
      using ne by (simp add: nth_append length_register_offsets nth_register_offsets)
    moreover have "take (length delays - 1) delays @ [delays ! (length delays - 1)] = delays"
      using ne by (metis append_butlast_last_id butlast_conv_take last_conv_nth)
    then have "sum_list (take (length delays - 1) delays) + delays ! (length delays - 1)
                 = sum_list delays"
      by (metis sum_list.append sum_list.Cons sum_list.Nil add.right_neutral)
    ultimately have cont:
      "?n ! length delays = ?n ! (length delays - 1) + delays ! (length delays - 1)"
      using last by simp
    show ?thesis
      using run len zero step last cont by blast
  qed
  have ex: "get_mode_indices [1, 6, 36] = Inr ([0, 1, 7, 43], 44)"
    by (simp add: get_mode_indices_def)
  show ?thesis
    using fails ok ex by blast
qed

theorem get_mode_indices_profile_witness:
  "get_mode_indices [1, 6, 36] = Inr ([0, 1, 7, 43], 44)
   \<and> [0, 1, 7, 43] ! 3 = (44::int) - 1
   \<and> get_mode_indices [] = Inl ValidationError
   \<and> get_mode_indices [1, 0, 36] = Inl ValidationError"
  using get_mode_indices_profile [of "[1, 6, 36]"] get_mode_indices_profile [of "[]"]
    get_mode_indices_profile [of "[1, 0, 36]"]
  by simp


section \<open>Properties of squeezing quantization\<close>

lemma no_worse_refl: "no_worse x q q"
  by (simp add: no_worse_def)

lemma no_worse_trans: "no_worse x a b \<Longrightarrow> no_worse x b c \<Longrightarrow> no_worse x a c"
  by (auto simp: no_worse_def)

lemma nearer_cases:
  "nearer x a b = a \<and> no_worse x a b \<or> nearer x a b = b \<and> no_worse x b a"
  by (auto simp: nearer_def no_worse_def)

lemma foldl_nearer:
  "foldl (nearer x) a ss \<in> set (a # ss)
   \<and> (\<forall>s\<in>set (a # ss). no_worse x (foldl (nearer x) a ss) s)"
proof (induction ss arbitrary: a)
  case Nil
  then show ?case by (simp add: no_worse_refl)
next
  case (Cons b ss)
  let ?c = "nearer x a b"
  let ?q = "foldl (nearer x) ?c ss"
  have ih: "?q \<in> set (?c # ss)" "\<forall>s\<in>set (?c # ss). no_worse x ?q s"
    using Cons.IH [of ?c] by simp_all
  have c: "?c = a \<and> no_worse x a b \<or> ?c = b \<and> no_worse x b a"
    by (rule nearer_cases)
  have qc: "no_worse x ?q ?c"
    using ih(2) by simp
  have mem: "?q \<in> set (a # b # ss)"
    using ih(1) c by auto
  have qa: "no_worse x ?q a"
    using c qc no_worse_trans by metis
  have qb: "no_worse x ?q b"
    using c qc no_worse_trans by metis
  show ?case
    using mem qa qb ih(2) by simp
qed

text \<open>
  Claim C7. Against a non-empty list of supported values, quantization returns a
  supported value that no supported value beats in absolute difference to the request,
  and the lowest such value when several are equally close. A supported request is
  returned unchanged, and quantizing the result again changes nothing. Quantizing 0.95
  against 0.0, 0.8, 1.0, 1.234 yields 1.0.
\<close>

theorem quantize_nearest:
  assumes "supported \<noteq> []"
  shows "(\<exists>q. quantize supported x = Some q
            \<and> q \<in> set supported
            \<and> (\<forall>s\<in>set supported. \<bar>x - q\<bar> \<le> \<bar>x - s\<bar>)
            \<and> (\<forall>s\<in>set supported. \<bar>x - s\<bar> = \<bar>x - q\<bar> \<longrightarrow> q \<le> s)
            \<and> (x \<in> set supported \<longrightarrow> q = x)
            \<and> quantize supported q = Some q)
       \<and> quantize [0, 8 / 10, 1, 1234 / 1000] (95 / 100) = Some 1"
proof -
  have key: "\<exists>q. quantize supported y = Some q \<and> q \<in> set supported
                \<and> (\<forall>s\<in>set supported. no_worse y q s)" for y
  proof -
    obtain a ss where sup: "supported = a # ss"
      using assms by (cases supported) auto
    show ?thesis
      using foldl_nearer [of y a ss] by (simp add: quantize_def sup)
  qed
  have fixed: "quantize supported y = Some y" if "y \<in> set supported" for y
  proof -
    obtain q where q: "quantize supported y = Some q" "q \<in> set supported"
      "\<forall>s\<in>set supported. no_worse y q s"
      using key by blast
    then have "no_worse y q y"
      using that by blast
    then have "q = y"
      by (auto simp: no_worse_def)
    with q show ?thesis by simp
  qed
  obtain q where q: "quantize supported x = Some q" "q \<in> set supported"
    "\<forall>s\<in>set supported. no_worse x q s"
    using key by blast
  have near: "\<forall>s\<in>set supported. \<bar>x - q\<bar> \<le> \<bar>x - s\<bar>"
    using q(3) by (auto simp: no_worse_def)
  have tie: "\<forall>s\<in>set supported. \<bar>x - s\<bar> = \<bar>x - q\<bar> \<longrightarrow> q \<le> s"
    using q(3) by (auto simp: no_worse_def)
  have idem: "x \<in> set supported \<longrightarrow> q = x"
    using fixed q(1) by auto
  have scenario: "quantize [0, 8 / 10, 1, 1234 / 1000] (95 / 100) = Some 1"
    by (simp add: quantize_def nearer_def)
  show ?thesis
    using q(1,2) near tie idem fixed [OF q(2)] scenario by blast
qed

theorem quantize_nearest_witness:
  "[0, 8 / 10, 1, 1234 / 1000] \<noteq> ([] :: real list)
   \<and> quantize [0, 8 / 10, 1, 1234 / 1000] (95 / 100) = Some 1
   \<and> quantize [0, 8 / 10, 1, 1234 / 1000] 1 = Some 1
   \<and> quantize [0, 8 / 10, 1, 1234 / 1000] (9 / 10) = Some (8 / 10)"
  using quantize_nearest [of "[0, 8 / 10, 1, 1234 / 1000]" "95 / 100"]
    quantize_nearest [of "[0, 8 / 10, 1, 1234 / 1000]" "9 / 10"]
  by (simp add: quantize_def nearer_def)


section \<open>Properties of the transfer matrix\<close>

lemma square_identity: "square L (identity L)"
  by (simp add: square_def identity_def list_all_iff)

lemma square_mat_mult: "length A = L \<Longrightarrow> square L (mat_mult L A B)"
  by (simp add: square_def mat_mult_def list_all_iff)

lemma square_foldl:
  "square L T \<Longrightarrow> square L (foldl (\<lambda>T op. mat_mult L (embed L op) T) T ops)"
proof (induction ops arbitrary: T)
  case Nil
  then show ?case by simp
next
  case (Cons op ops)
  have "square L (mat_mult L (embed L op) T)"
    by (rule square_mat_mult) (simp add: embed_def)
  then show ?case
    using Cons.IH by simp
qed

lemma square_transfer_matrix:
  assumes "square (M + vac) T"
  shows "square M (transfer_matrix T vac (M + vac))"
  using assms
  by (auto simp: square_def transfer_matrix_def list_all_iff
           dest: in_set_takeD in_set_dropD)

lemma sum_list_upt: "sum_list (map f [0..<L]) = (\<Sum>k<L. f k)"
  by (simp add: interv_sum_list_conv_sum_set_nat atLeast0LessThan)

lemma nth_mat_vec: "r < length A \<Longrightarrow> mat_vec L A v ! r = (\<Sum>k<L. A ! r ! k * v ! k)"
  by (simp add: mat_vec_def sum_list_upt)

lemma length_mat_vec: "length (mat_vec L A v) = length A"
  by (simp add: mat_vec_def)

lemma nth_mat_mult:
  "r < length A \<Longrightarrow> c < L \<Longrightarrow> mat_mult L A B ! r ! c = (\<Sum>k<L. A ! r ! k * (B ! k ! c))"
  by (simp add: mat_mult_def sum_list_upt)

lemma nth_embed: "r < L \<Longrightarrow> c < L \<Longrightarrow> embed L op ! r ! c = entry op r c"
  by (simp add: embed_def)

lemma nth_identity: "r < L \<Longrightarrow> c < L \<Longrightarrow> identity L ! r ! c = (if r = c then 1 else 0)"
  by (simp add: identity_def)

lemma mat_vec_identity:
  assumes "length v = L"
  shows "mat_vec L (identity L) v = v"
proof (rule nth_equalityI)
  show "length (mat_vec L (identity L) v) = length v"
    using assms by (simp add: length_mat_vec identity_def)
next
  fix r assume "r < length (mat_vec L (identity L) v)"
  then have r: "r < L" by (simp add: length_mat_vec identity_def)
  have "mat_vec L (identity L) v ! r = (\<Sum>k<L. identity L ! r ! k * v ! k)"
    using r by (simp add: nth_mat_vec identity_def)
  also have "\<dots> = (\<Sum>k<L. if k = r then v ! k else 0)"
    using r by (intro sum.cong) (auto simp: nth_identity)
  also have "\<dots> = v ! r"
    using r by simp
  finally show "mat_vec L (identity L) v ! r = v ! r" .
qed

lemma mat_vec_mat_mult:
  assumes "length B = L"
  shows "mat_vec L (mat_mult L A B) v = mat_vec L A (mat_vec L B v)"
proof (rule nth_equalityI)
  show "length (mat_vec L (mat_mult L A B) v) = length (mat_vec L A (mat_vec L B v))"
    by (simp add: length_mat_vec mat_mult_def)
next
  fix r assume "r < length (mat_vec L (mat_mult L A B) v)"
  then have r: "r < length A" by (simp add: length_mat_vec mat_mult_def)
  then have r': "r < length (mat_mult L A B)" by (simp add: mat_mult_def)
  have "mat_vec L (mat_mult L A B) v ! r = (\<Sum>c<L. mat_mult L A B ! r ! c * v ! c)"
    using r' by (rule nth_mat_vec)
  also have "\<dots> = (\<Sum>c<L. (\<Sum>k<L. A ! r ! k * (B ! k ! c)) * v ! c)"
    using r by (intro sum.cong) (simp_all add: nth_mat_mult)
  also have "\<dots> = (\<Sum>c<L. \<Sum>k<L. A ! r ! k * (B ! k ! c * v ! c))"
    by (simp add: sum_distrib_right mult.assoc)
  also have "\<dots> = (\<Sum>k<L. \<Sum>c<L. A ! r ! k * (B ! k ! c * v ! c))"
    by (rule sum.swap)
  also have "\<dots> = (\<Sum>k<L. A ! r ! k * (\<Sum>c<L. B ! k ! c * v ! c))"
    by (simp add: sum_distrib_left)
  also have "\<dots> = (\<Sum>k<L. A ! r ! k * mat_vec L B v ! k)"
    using assms by (intro sum.cong) (simp_all add: nth_mat_vec)
  also have "\<dots> = mat_vec L A (mat_vec L B v) ! r"
    using r by (simp add: nth_mat_vec)
  finally show "mat_vec L (mat_mult L A B) v ! r = mat_vec L A (mat_vec L B v) ! r" .
qed


lemma sum_two_points:
  assumes "i < (L::nat)" "j < L" "i \<noteq> j"
  shows "(\<Sum>k<L. (if k = i then x else if k = j then y else 0) * f k)
           = x * f i + y * (f j :: complex)"
proof -
  have "(\<Sum>k<L. (if k = i then x else if k = j then y else 0) * f k)
          = (\<Sum>k<L. (if k = i then x * f k else 0) + (if k = j then y * f k else 0))"
    using assms(3) by (intro sum.cong) auto
  also have "\<dots> = (\<Sum>k<L. if k = i then x * f k else 0) + (\<Sum>k<L. if k = j then y * f k else 0)"
    by (rule sum.distrib)
  also have "\<dots> = x * f i + y * f j"
    using assms(1,2) by simp
  finally show ?thesis .
qed

lemma sum_one_point:
  assumes "i < (L::nat)"
  shows "(\<Sum>k<L. (if k = i then x else 0) * f k) = x * (f i :: complex)"
proof -
  have "(\<Sum>k<L. (if k = i then x else 0) * f k) = (\<Sum>k<L. if k = i then x * f k else 0)"
    by (intro sum.cong) auto
  also have "\<dots> = x * f i"
    using assms by simp
  finally show ?thesis .
qed

lemma row_interaction:
  assumes "i \<noteq> j"
  shows "entry (Interaction i j a b c d) r k =
           (if r = i then (if k = i then a else if k = j then b else 0)
            else if r = j then (if k = i then c else if k = j then d else 0)
            else (if k = r then 1 else 0))"
  using assms by auto

lemma row_loss:
  "entry (Loss i a) r k =
     (if r = i then (if k = i then a else 0) else (if k = r then 1 else 0))"
  by auto

lemma mat_vec_embed:
  assumes "registers_ok L op" "length v = L" "\<not> is_squeezing op"
  shows "apply_op op v = Some (mat_vec L (embed L op) v)"
proof (cases op)
  case (Interaction i j a b c d)
  then have ij: "i < L" "j < L" "i \<noteq> j"
    using assms(1) by simp_all
  have "mat_vec L (embed L op) v = v[i := a * v ! i + b * v ! j, j := c * v ! i + d * v ! j]"
  proof (rule nth_equalityI)
    show "length (mat_vec L (embed L op) v)
            = length (v[i := a * v ! i + b * v ! j, j := c * v ! i + d * v ! j])"
      using assms(2) by (simp add: length_mat_vec embed_def)
  next
    fix r assume "r < length (mat_vec L (embed L op) v)"
    then have r: "r < L" by (simp add: length_mat_vec embed_def)
    have "mat_vec L (embed L op) v ! r = (\<Sum>k<L. embed L op ! r ! k * v ! k)"
      using r by (simp add: nth_mat_vec embed_def)
    also have "\<dots> = (\<Sum>k<L. entry op r k * v ! k)"
      using r by (intro sum.cong) (simp_all add: nth_embed)
    finally have row: "mat_vec L (embed L op) v ! r = (\<Sum>k<L. entry op r k * v ! k)" .
    show "mat_vec L (embed L op) v ! r
            = v[i := a * v ! i + b * v ! j, j := c * v ! i + d * v ! j] ! r"
    proof (cases "r = i")
      case True
      then show ?thesis
        unfolding row
        using ij assms(2) sum_two_points [OF ij, of a b "\<lambda>k. v ! k"]
        by (simp add: Interaction row_interaction [OF ij(3)] del: entry.simps)
    next
      case False
      note ri = this
      show ?thesis
      proof (cases "r = j")
        case True
        then show ?thesis
          unfolding row
          using ij assms(2) sum_two_points [OF ij, of c d "\<lambda>k. v ! k"]
          by (simp add: Interaction row_interaction [OF ij(3)] del: entry.simps)
      next
        case False
        then show ?thesis
          unfolding row
          using ri r assms(2) sum_one_point [OF r, of 1 "\<lambda>k. v ! k"]
          by (simp add: Interaction row_interaction [OF ij(3)] del: entry.simps)
      qed
    qed
  qed
  then show ?thesis
    by (simp add: Interaction)
next
  case (Loss i a)
  then have i: "i < L"
    using assms(1) by simp
  have "mat_vec L (embed L op) v = v[i := a * v ! i]"
  proof (rule nth_equalityI)
    show "length (mat_vec L (embed L op) v) = length (v[i := a * v ! i])"
      using assms(2) by (simp add: length_mat_vec embed_def)
  next
    fix r assume "r < length (mat_vec L (embed L op) v)"
    then have r: "r < L" by (simp add: length_mat_vec embed_def)
    have "mat_vec L (embed L op) v ! r = (\<Sum>k<L. embed L op ! r ! k * v ! k)"
      using r by (simp add: nth_mat_vec embed_def)
    also have "\<dots> = (\<Sum>k<L. entry op r k * v ! k)"
      using r by (intro sum.cong) (simp_all add: nth_embed)
    finally have row: "mat_vec L (embed L op) v ! r = (\<Sum>k<L. entry op r k * v ! k)" .
    show "mat_vec L (embed L op) v ! r = v[i := a * v ! i] ! r"
    proof (cases "r = i")
      case True
      then show ?thesis
        unfolding row
        using i assms(2) sum_one_point [OF i, of a "\<lambda>k. v ! k"]
        by (simp add: Loss row_loss del: entry.simps)
    next
      case False
      then show ?thesis
        unfolding row
        using r assms(2) sum_one_point [OF r, of 1 "\<lambda>k. v ! k"]
        by (simp add: Loss row_loss del: entry.simps)
    qed
  qed
  then show ?thesis
    by (simp add: Loss)
next
  case (Squeezing i r)
  then show ?thesis
    using assms(3) by simp
qed

lemma composed_action_foldl:
  assumes "list_all (registers_ok L) ops" "\<not> list_ex is_squeezing ops" "length T = L"
  shows "composed_action ops (mat_vec L T v)
           = Some (mat_vec L (foldl (\<lambda>T op. mat_mult L (embed L op) T) T ops) v)"
  using assms
proof (induction ops arbitrary: T)
  case Nil
  then show ?case by simp
next
  case (Cons op ops)
  let ?T = "mat_mult L (embed L op) T"
  have len: "length ?T = L"
    by (simp add: mat_mult_def embed_def)
  have "apply_op op (mat_vec L T v) = Some (mat_vec L (embed L op) (mat_vec L T v))"
    using Cons.prems by (intro mat_vec_embed) (simp_all add: length_mat_vec)
  also have "mat_vec L (embed L op) (mat_vec L T v) = mat_vec L ?T v"
    using Cons.prems(3) by (simp add: mat_vec_mat_mult)
  finally have step: "apply_op op (mat_vec L T v) = Some (mat_vec L ?T v)" .
  have "composed_action ops (mat_vec L ?T v)
          = Some (mat_vec L (foldl (\<lambda>T op. mat_mult L (embed L op) T) ?T ops) v)"
    using Cons.prems len by (intro Cons.IH) simp_all
  then show ?case
    by (simp add: step)
qed

lemma nth_transfer_matrix:
  assumes "square (M + vac) T" "r < M" "c < M"
  shows "transfer_matrix T vac (M + vac) ! r ! c = T ! (vac + r) ! (vac + c)"
proof -
  have len: "length T = M + vac"
    using assms(1) by (simp add: square_def)
  then have "T ! (vac + r) \<in> set T"
    using assms(2) by simp
  then have row: "length (T ! (vac + r)) = M + vac"
    using assms(1) by (simp add: square_def list_all_iff)
  show ?thesis
    using len row assms(2,3) by (simp add: transfer_matrix_def)
qed

lemma mat_vec_transfer_matrix:
  assumes "square (M + vac) T" "length w = M"
  shows "mat_vec M (transfer_matrix T vac (M + vac)) w
           = drop vac (mat_vec (M + vac) T (replicate vac 0 @ w))"
proof (rule nth_equalityI)
  have len: "length T = M + vac"
    using assms(1) by (simp add: square_def)
  show l: "length (mat_vec M (transfer_matrix T vac (M + vac)) w)
          = length (drop vac (mat_vec (M + vac) T (replicate vac 0 @ w)))"
    using len by (simp add: length_mat_vec transfer_matrix_def)
  fix r assume "r < length (mat_vec M (transfer_matrix T vac (M + vac)) w)"
  then have r: "r < M"
    using len by (simp add: length_mat_vec transfer_matrix_def)
  let ?v = "replicate vac 0 @ w"
  have "drop vac (mat_vec (M + vac) T ?v) ! r = mat_vec (M + vac) T ?v ! (vac + r)"
    using r len by (simp add: length_mat_vec)
  also have "\<dots> = (\<Sum>k<M + vac. T ! (vac + r) ! k * ?v ! k)"
    using r len by (simp add: nth_mat_vec)
  also have "\<dots> = (\<Sum>k<vac + M. T ! (vac + r) ! k * ?v ! k)"
    by (simp add: add.commute)
  also have "\<dots> = (\<Sum>k<vac. T ! (vac + r) ! k * ?v ! k)
                    + (\<Sum>k<M. T ! (vac + r) ! (vac + k) * ?v ! (vac + k))"
  proof -
    let ?f = "\<lambda>k. T ! (vac + r) ! k * ?v ! k"
    have "sum ?f {..<vac + M} = sum ?f {0..<vac} + sum ?f {vac..<vac + M}"
      unfolding lessThan_atLeast0 by (rule sum.atLeastLessThan_concat [symmetric]) simp_all
    also have "sum ?f {vac..<vac + M} = sum (\<lambda>k. ?f (k + vac)) {0..<M}"
      using sum.shift_bounds_nat_ivl [of ?f 0 vac M] by (simp add: add.commute)
    finally show ?thesis
      by (simp add: lessThan_atLeast0 add.commute)
  qed
  also have "(\<Sum>k<vac. T ! (vac + r) ! k * ?v ! k) = 0"
    by (simp add: nth_append)
  also have "(\<Sum>k<M. T ! (vac + r) ! (vac + k) * ?v ! (vac + k))
               = (\<Sum>k<M. transfer_matrix T vac (M + vac) ! r ! k * w ! k)"
    using r assms(1) by (intro sum.cong) (simp_all add: nth_transfer_matrix nth_append)
  also have "0 + \<dots> = mat_vec M (transfer_matrix T vac (M + vac)) w ! r"
    using r len by (simp add: nth_mat_vec transfer_matrix_def)
  finally show "mat_vec M (transfer_matrix T vac (M + vac)) w ! r
                  = drop vac (mat_vec (M + vac) T ?v) ! r"
    by simp
qed


text \<open>
  Claim C9. On a circuit without squeezing operations over \<open>L = M + vac_modes\<close> registers
  the extractor returns a matrix \<open>T\<close> of \<open>L\<close> rows and \<open>L\<close> columns. The slice of the
  tutorial, from \<open>vac_modes\<close> to \<open>L\<close> along both axes, has \<open>M\<close> rows and \<open>M\<close> columns
  (216 by 216 out of 259 by 259 for 216 modes and 43 vacuum modes), and its entry at
  \<open>(r, c)\<close> is the entry of \<open>T\<close> at the computational registers \<open>vac_modes + r\<close> and
  \<open>vac_modes + c\<close>. When the operations reference registers of the register set only,
  \<open>T\<close> is the transfer operator of the circuit: applied to any vector of amplitudes it
  gives what the operations give one after the other. The slice is the transfer operator
  on the computational registers: for amplitudes entering on the computational registers
  only, it gives the amplitudes leaving on the computational registers. On a circuit with
  a squeezing operation the extractor fails.
\<close>

theorem transfer_matrix_restriction:
  "(\<not> list_ex is_squeezing ops \<longrightarrow>
      (\<exists>T. transfer_matrix_tot (M + vac_modes) ops = Inr T
          \<and> square (M + vac_modes) T
          \<and> square M (transfer_matrix T vac_modes (M + vac_modes))
          \<and> (\<forall>r<M. \<forall>c<M. transfer_matrix T vac_modes (M + vac_modes) ! r ! c
                              = T ! (vac_modes + r) ! (vac_modes + c))
          \<and> (list_all (registers_ok (M + vac_modes)) ops \<longrightarrow>
                (\<forall>v. length v = M + vac_modes \<longrightarrow>
                       composed_action ops v = Some (mat_vec (M + vac_modes) T v))
              \<and> (\<forall>w. length w = M \<longrightarrow>
                       map_option (drop vac_modes)
                         (composed_action ops (replicate vac_modes 0 @ w))
                       = Some (mat_vec M (transfer_matrix T vac_modes (M + vac_modes)) w)))))
   \<and> (list_ex is_squeezing ops \<longrightarrow> transfer_matrix_tot L ops = Inl NonPassiveOperation)"
proof -
  let ?L = "M + vac_modes"
  let ?T = "foldl (\<lambda>T op. mat_mult ?L (embed ?L op) T) (identity ?L) ops"
  have sq: "square ?L ?T"
    by (simp add: square_foldl square_identity)
  have block: "square M (transfer_matrix ?T vac_modes ?L)"
    using sq by (rule square_transfer_matrix)
  have entries: "\<forall>r<M. \<forall>c<M. transfer_matrix ?T vac_modes ?L ! r ! c
                                  = ?T ! (vac_modes + r) ! (vac_modes + c)"
    using sq by (simp add: nth_transfer_matrix)
  have action: "composed_action ops v = Some (mat_vec ?L ?T v)"
    if ok: "list_all (registers_ok ?L) ops" and nosq: "\<not> list_ex is_squeezing ops"
      and len: "length v = ?L" for v
  proof -
    have "composed_action ops (mat_vec ?L (identity ?L) v) = Some (mat_vec ?L ?T v)"
      using ok nosq by (intro composed_action_foldl) (simp_all add: identity_def)
    then show ?thesis
      using len by (simp add: mat_vec_identity)
  qed
  have restricted: "map_option (drop vac_modes) (composed_action ops (replicate vac_modes 0 @ w))
                      = Some (mat_vec M (transfer_matrix ?T vac_modes ?L) w)"
    if ok: "list_all (registers_ok ?L) ops" and nosq: "\<not> list_ex is_squeezing ops"
      and len: "length w = M" for w
  proof -
    have "composed_action ops (replicate vac_modes 0 @ w)
            = Some (mat_vec ?L ?T (replicate vac_modes 0 @ w))"
      using ok nosq len by (intro action) simp_all
    then show ?thesis
      using sq len by (simp add: mat_vec_transfer_matrix)
  qed
  have run: "transfer_matrix_tot ?L ops = Inr ?T" if "\<not> list_ex is_squeezing ops"
    using that by (simp add: transfer_matrix_tot_def)
  have fails: "transfer_matrix_tot L ops = Inl NonPassiveOperation" if "list_ex is_squeezing ops"
    using that by (simp add: transfer_matrix_tot_def)
  show ?thesis
    using run sq block entries action restricted fails by blast
qed

theorem transfer_matrix_restriction_witness:
  "transfer_matrix_tot (2 + 1) [Loss 0 (1 / 2), Interaction 1 2 0 1 1 0, Interaction 0 1 0 \<i> \<i> 0]
     = Inr [[0, 0, \<i>], [\<i> / 2, 0, 0], [0, 1, 0]]
   \<and> composed_action [Loss 0 (1 / 2), Interaction 1 2 0 1 1 0, Interaction 0 1 0 \<i> \<i> 0] [1, 2, 3]
     = Some (mat_vec (2 + 1) [[0, 0, \<i>], [\<i> / 2, 0, 0], [0, 1, 0]] [1, 2, 3])
   \<and> mat_vec (2 + 1) [[0, 0, \<i>], [\<i> / 2, 0, 0], [0, 1, 0]] [1, 2, 3] = [3 * \<i>, \<i> / 2, 2]
   \<and> transfer_matrix [[0, 0, \<i>], [\<i> / 2, 0, 0], [0, 1, 0]] 1 (2 + 1) = [[0, 0], [1, 0]]
   \<and> map_option (drop 1)
        (composed_action [Loss 0 (1 / 2), Interaction 1 2 0 1 1 0, Interaction 0 1 0 \<i> \<i> 0]
           (replicate 1 0 @ [2, 3]))
     = Some (mat_vec 2 [[0, 0], [1, 0]] [2, 3])
   \<and> mat_vec 2 [[0, 0], [1, 0]] [2, 3] = [0, 2]
   \<and> transfer_matrix_tot 3 [Loss 0 (1 / 2), Squeezing 1 1] = Inl NonPassiveOperation
   \<and> square 216 (transfer_matrix (projr (transfer_matrix_tot (216 + 43) [])) 43 (216 + 43))"
proof -
  let ?ops = "[Loss 0 (1 / 2), Interaction 1 2 0 1 1 0, Interaction 0 1 0 \<i> \<i> 0]"
  let ?T = "[[0, 0, \<i>], [\<i> / 2, 0, 0], [0, 1, 0]] :: matrix"
  have run: "transfer_matrix_tot (2 + 1) ?ops = Inr ?T"
    by (simp add: transfer_matrix_tot_def mat_mult_def embed_def identity_def upt_conv_Cons)
  have nosq: "\<not> list_ex is_squeezing ?ops"
    by simp
  have ok: "list_all (registers_ok (2 + 1)) ?ops"
    by simp
  have slice: "transfer_matrix ?T 1 (2 + 1) = [[0, 0], [1, 0]]"
    by (simp add: transfer_matrix_def)
  obtain T where T: "transfer_matrix_tot (2 + 1) ?ops = Inr T"
    and act: "\<forall>v. length v = 2 + 1 \<longrightarrow> composed_action ?ops v = Some (mat_vec (2 + 1) T v)"
    and res: "\<forall>w. length w = 2 \<longrightarrow>
                map_option (drop 1) (composed_action ?ops (replicate 1 0 @ w))
                = Some (mat_vec 2 (transfer_matrix T 1 (2 + 1)) w)"
    using transfer_matrix_restriction [of ?ops 2 1] nosq ok by blast
  have TT: "T = ?T"
    using T run by simp
  have "length [1, 2, 3 :: complex] = 2 + 1"
    by simp
  then have a: "composed_action ?ops [1, 2, 3] = Some (mat_vec (2 + 1) ?T [1, 2, 3])"
    using act unfolding TT by blast
  have "length [2, 3 :: complex] = 2"
    by simp
  then have b: "map_option (drop 1) (composed_action ?ops (replicate 1 0 @ [2, 3]))
             = Some (mat_vec 2 [[0, 0], [1, 0]] [2, 3])"
    using res unfolding TT slice by blast
  have c: "mat_vec (2 + 1) ?T [1, 2, 3] = [3 * \<i>, \<i> / 2, 2]"
    by (simp add: mat_vec_def upt_conv_Cons)
  have d: "mat_vec 2 [[0, 0], [1, 0]] [2, 3] = [0, 2]"
    by (simp add: mat_vec_def upt_conv_Cons)
  have fails: "transfer_matrix_tot 3 [Loss 0 (1 / 2), Squeezing 1 1] = Inl NonPassiveOperation"
    using transfer_matrix_restriction [of "[Loss 0 (1 / 2), Squeezing 1 1]" 0 0 3] by simp
  have "\<exists>T. transfer_matrix_tot (216 + 43) [] = Inr T
           \<and> square 216 (transfer_matrix T 43 (216 + 43))"
    using transfer_matrix_restriction [of "[]" 216 43] by auto
  then have big: "square 216 (transfer_matrix (projr (transfer_matrix_tot (216 + 43) [])) 43
                                (216 + 43))"
    by auto
  show ?thesis
    using run a c slice b d fails big by blast
qed

end
